theory Spec2Isabelle
  imports Main "HOL-Library.Sublist"
begin

section \<open>Text and characters\<close>

text \<open>
  Python strings are modelled as \<^typ>\<open>string\<close>; every character stands for one code
  point below 256. On that range the class \<^verbatim>\<open>\d\<close> of \<^verbatim>\<open>re\<close> is the ten ASCII digits
  and the class \<^verbatim>\<open>\s\<close> (the same test as \<^verbatim>\<open>str.isspace\<close>, used by \<^verbatim>\<open>str.strip\<close>)
  is the twelve code points listed in \<open>isspace\<close>.
\<close>

definition isdigit :: "char \<Rightarrow> bool" where
  "isdigit c = (c \<in> set ''0123456789'')"

definition isspace :: "char \<Rightarrow> bool" where
  "isspace c = ((of_char c :: int) \<in> {9, 10, 11, 12, 13, 28, 29, 30, 31, 32, 133, 160})"

text \<open>\<^verbatim>\<open>int(s)\<close> on a string of ASCII digits.\<close>

definition digit_val :: "char \<Rightarrow> int" where
  "digit_val c = of_char c - 48"

definition int_of_digits :: "string \<Rightarrow> int" where
  "int_of_digits s = foldl (\<lambda>acc c. 10 * acc + digit_val c) 0 s"

text \<open>\<^verbatim>\<open>s.strip()\<close>: leading and trailing whitespace removed.\<close>

definition strip :: "string \<Rightarrow> string" where
  "strip s = rev (dropWhile isspace (rev (dropWhile isspace s)))"


section \<open>Time values\<close>

text \<open>The exceptions the script can raise outside its \<^verbatim>\<open>try\<close> blocks.\<close>

datatype exn = ValueError | OverflowError

text \<open>
  A naive \<^verbatim>\<open>datetime\<close> as \<^verbatim>\<open>strptime\<close> builds it. An aware \<^verbatim>\<open>datetime\<close> is modelled by
  the instant it denotes: the number of microseconds since 0001-01-01T00:00:00 UTC.
  Python compares aware datetimes by that instant.
\<close>

record naive =
  year :: int
  month :: int
  day :: int
  hour :: int
  minute :: int
  second :: int

type_synonym instant = int

definition is_leap :: "int \<Rightarrow> bool" where
  "is_leap y = (y mod 4 = 0 \<and> (y mod 100 \<noteq> 0 \<or> y mod 400 = 0))"

definition days_in_month :: "int \<Rightarrow> int \<Rightarrow> int" where
  "days_in_month y m =
     (if m = 2 then (if is_leap y then 29 else 28)
      else if m \<in> {4, 6, 9, 11} then 30 else 31)"

text \<open>Days in the year \<open>y\<close> before the first day of month \<open>m\<close>.\<close>

definition days_before_month :: "int \<Rightarrow> int \<Rightarrow> int" where
  "days_before_month y m =
     sum_list (map (days_in_month y) (filter (\<lambda>k. k < m) [1, 2, 3, 4, 5, 6, 7, 8, 9, 10, 11, 12]))"

text \<open>Days before January 1st of year \<open>y\<close> (\<open>y \<ge> 1\<close>).\<close>

definition days_before_year :: "int \<Rightarrow> int" where
  "days_before_year y = (y - 1) * 365 + (y - 1) div 4 - (y - 1) div 100 + (y - 1) div 400"

text \<open>The proleptic Gregorian ordinal; 0001-01-01 is day 1.\<close>

definition ymd2ord :: "int \<Rightarrow> int \<Rightarrow> int \<Rightarrow> int" where
  "ymd2ord y m d = days_before_year y + days_before_month y m + d"

definition MAXORDINAL :: int where
  "MAXORDINAL = 3652059"

definition usec :: int where
  "usec = 1000000"

text \<open>The instant of the civil time \<open>y-m-d h:mi:s\<close> read as UTC.\<close>

definition datetime_utc :: "int \<Rightarrow> int \<Rightarrow> int \<Rightarrow> int \<Rightarrow> int \<Rightarrow> int \<Rightarrow> instant" where
  "datetime_utc y m d h mi s =
     ((ymd2ord y m d - 1) * 86400 + h * 3600 + mi * 60 + s) * usec"

text \<open>\<^verbatim>\<open>base.replace(tzinfo=timezone.utc)\<close>\<close>

definition replace_utc :: "naive \<Rightarrow> instant" where
  "replace_utc b = datetime_utc (year b) (month b) (day b) (hour b) (minute b) (second b)"

text \<open>The instants a \<^verbatim>\<open>datetime\<close> can hold: the years 1 to 9999.\<close>

definition in_range :: "instant \<Rightarrow> bool" where
  "in_range t = (0 \<le> t \<and> t < MAXORDINAL * 86400 * usec)"

text \<open>\<^verbatim>\<open>timedelta(days=n)\<close>\<close>

definition days :: "int \<Rightarrow> int" where
  "days n = n * 86400 * usec"


section \<open>The timestamp parser\<close>

text \<open>
  \<^verbatim>\<open>datetime.strptime(s, "%Y%m%d%H%M%S")\<close> on a string of 14 digits: the fields are read
  two digits each (four for the year); a year 0, a month outside 1..12, a day the month
  does not have, an hour above 23, a minute above 59 or a second above 59 raise
  \<^verbatim>\<open>ValueError\<close>.
\<close>

definition strptime :: "string \<Rightarrow> exn + naive" where
  "strptime s =
     (let y = int_of_digits (take 4 s);
          m = int_of_digits (take 2 (drop 4 s));
          d = int_of_digits (take 2 (drop 6 s));
          h = int_of_digits (take 2 (drop 8 s));
          mi = int_of_digits (take 2 (drop 10 s));
          sec = int_of_digits (take 2 (drop 12 s))
      in if 1 \<le> y \<and> 1 \<le> m \<and> m \<le> 12 \<and> 1 \<le> d \<and> d \<le> days_in_month y m
            \<and> h \<le> 23 \<and> mi \<le> 59 \<and> sec \<le> 59
         then Inr \<lparr>year = y, month = m, day = d, hour = h, minute = mi, second = sec\<rparr>
         else Inl ValueError)"

text \<open>
  The optional group \<^verbatim>\<open>(?:\s*([+\-]\d{4}|Z))?\<close> tried on what follows the 14 digits:
  the text of group 2 when the group matches, \<open>None\<close> when it does not.
\<close>

definition match_tz :: "string \<Rightarrow> string option" where
  "match_tz rest =
     (let r = dropWhile isspace rest
      in if r \<noteq> [] \<and> (hd r = CHR ''+'' \<or> hd r = CHR ''-'') \<and> 5 \<le> length r
            \<and> list_all isdigit (take 4 (tl r))
         then Some (take 5 r)
         else if r \<noteq> [] \<and> hd r = CHR ''Z'' then Some ''Z''
         else None)"

text \<open>
  \<^verbatim>\<open>re.match(r"(\d{14})(?:\s*([+\-]\d{4}|Z))?", ts)\<close>: groups 1 and 2 of the match at
  the start of \<open>ts\<close>, \<open>None\<close> when there is no match. The pattern is not anchored at the
  end, so whatever follows the match is ignored.
\<close>

definition re_match :: "string \<Rightarrow> (string \<times> string option) option" where
  "re_match ts =
     (if 14 \<le> length ts \<and> list_all isdigit (take 14 ts)
      then Some (take 14 ts, match_tz (drop 14 ts))
      else None)"

text \<open>
  \<^verbatim>\<open>timezone(sign * timedelta(hours=hours, minutes=mins))\<close> raises \<^verbatim>\<open>ValueError\<close> unless
  the offset is strictly between -24 h and 24 h; \<^verbatim>\<open>astimezone(timezone.utc)\<close> subtracts
  the offset and raises \<^verbatim>\<open>OverflowError\<close> when the result leaves the years 1..9999.
\<close>

definition parse_xmltv_time :: "string \<Rightarrow> exn + instant option" where
  "parse_xmltv_time ts =
     (if ts = [] then Inr None
      else case re_match ts of
        None \<Rightarrow> Inr None
      | Some (g1, tz) \<Rightarrow>
          (case strptime g1 of
             Inl e \<Rightarrow> Inl e
           | Inr base \<Rightarrow>
               (case tz of
                  None \<Rightarrow> Inr (Some (replace_utc base))
                | Some z \<Rightarrow>
                    if z \<noteq> ''Z'' then
                      (let sign = (if hd z = CHR ''+'' then 1 else - 1 :: int);
                           hours = int_of_digits (take 2 (drop 1 z));
                           mins = int_of_digits (take 2 (drop 3 z));
                           off = sign * (hours * 60 + mins)
                       in if \<not> (- 1440 < off \<and> off < 1440) then Inl ValueError
                          else let t = replace_utc base - off * 60 * usec
                               in if in_range t then Inr (Some t) else Inl OverflowError)
                    else Inr (Some (replace_utc base)))))"

text \<open>
  The truth value of a \<^verbatim>\<open>datetime\<close> is always true, so \<^verbatim>\<open>not start_dt\<close> holds exactly
  when the parser returned \<^verbatim>\<open>None\<close>.
\<close>

definition intersects_window ::
  "instant option \<Rightarrow> instant option \<Rightarrow> instant \<Rightarrow> instant \<Rightarrow> bool" where
  "intersects_window start_dt stop_dt win_start win_end =
     (if start_dt = None \<and> stop_dt = None then True
      else if start_dt = None then the stop_dt \<ge> win_start
      else if stop_dt = None then the start_dt \<le> win_end
      else the start_dt \<le> win_end \<and> the stop_dt \<ge> win_start)"


section \<open>XML elements\<close>

text \<open>
  An element of an \<^verbatim>\<open>lxml\<close> tree: its tag, its attributes, its text (\<open>None\<close> when it has
  none) and its child elements in document order.
\<close>

datatype element =
  Element (tag: string) (attrib: "(string \<times> string) list") (etext: "string option")
    (children: "element list")

text \<open>\<^verbatim>\<open>el.get(name) or ""\<close>\<close>

definition get_or_empty :: "element \<Rightarrow> string \<Rightarrow> string" where
  "get_or_empty el name = (case map_of (attrib el) name of None \<Rightarrow> [] | Some v \<Rightarrow> v)"

text \<open>\<^verbatim>\<open>root.findall(t)\<close>: the children of \<open>root\<close> with tag \<open>t\<close>, in document order.\<close>

definition findall :: "string \<Rightarrow> element \<Rightarrow> element list" where
  "findall t root = filter (\<lambda>c. tag c = t) (children root)"

text \<open>
  \<^verbatim>\<open>(el.findtext(t) or "")\<close>: the text of the first child with tag \<open>t\<close>; the empty
  string when there is no such child or it has no text.
\<close>

definition findtext_or_empty :: "element \<Rightarrow> string \<Rightarrow> string" where
  "findtext_or_empty el t =
     (case find (\<lambda>c. tag c = t) (children el) of
        None \<Rightarrow> []
      | Some c \<Rightarrow> (case etext c of None \<Rightarrow> [] | Some s \<Rightarrow> s))"


section \<open>The merge engine\<close>

type_synonym pkey = "string \<times> string \<times> string \<times> string"

text \<open>
  The variables of \<^verbatim>\<open>main\<close> that the loop updates. \<open>tv_root\<close> holds the children appended
  to the \<^verbatim>\<open><tv>\<close> element so far; \<open>stderr\<close> holds the URL of each failure message printed
  (the text of the message is not modelled).
\<close>

record merge_state =
  tv_root :: "element list"
  channel_ids_seen :: "string set"
  programme_keys_seen :: "pkey set"
  sources_ok :: nat
  stderr :: "string list"

definition init_state :: merge_state where
  "init_state = \<lparr>tv_root = [], channel_ids_seen = {}, programme_keys_seen = {},
     sources_ok = 0, stderr = []\<rparr>"

text \<open>The body of the loop over \<^verbatim>\<open>root.findall("channel")\<close>.\<close>

definition add_channel :: "element \<Rightarrow> merge_state \<Rightarrow> merge_state" where
  "add_channel ch st =
     (let cid = get_or_empty ch ''id''
      in if cid \<noteq> [] \<and> cid \<notin> channel_ids_seen st
         then st\<lparr>channel_ids_seen := insert cid (channel_ids_seen st),
                 tv_root := tv_root st @ [ch]\<rparr>
         else st)"

definition add_channels :: "element list \<Rightarrow> merge_state \<Rightarrow> merge_state" where
  "add_channels chs st = foldl (\<lambda>s ch. add_channel ch s) st chs"

text \<open>The dedup key of a programme element.\<close>

definition programme_key :: "element \<Rightarrow> pkey" where
  "programme_key pr =
     (get_or_empty pr ''channel'', get_or_empty pr ''start'', get_or_empty pr ''stop'',
      strip (findtext_or_empty pr ''title''))"

text \<open>
  The window test of one programme: both timestamps are parsed first (either call can
  raise), then \<open>intersects_window\<close> decides.
\<close>

definition window_test :: "instant \<Rightarrow> instant \<Rightarrow> element \<Rightarrow> exn + bool" where
  "window_test win_start win_end pr =
     (case parse_xmltv_time (get_or_empty pr ''start'') of
        Inl e \<Rightarrow> Inl e
      | Inr start_dt \<Rightarrow>
          (case parse_xmltv_time (get_or_empty pr ''stop'') of
             Inl e \<Rightarrow> Inl e
           | Inr stop_dt \<Rightarrow> Inr (intersects_window start_dt stop_dt win_start win_end)))"

text \<open>The body of the loop over \<^verbatim>\<open>root.findall("programme")\<close>.\<close>

definition add_programme ::
  "instant \<Rightarrow> instant \<Rightarrow> element \<Rightarrow> merge_state \<Rightarrow> exn + merge_state" where
  "add_programme win_start win_end pr st =
     (case window_test win_start win_end pr of
        Inl e \<Rightarrow> Inl e
      | Inr keep \<Rightarrow>
          if \<not> keep then Inr st
          else let key = programme_key pr
               in if key \<in> programme_keys_seen st then Inr st
                  else Inr (st\<lparr>programme_keys_seen := insert key (programme_keys_seen st),
                               tv_root := tv_root st @ [pr]\<rparr>))"

fun add_programmes ::
  "instant \<Rightarrow> instant \<Rightarrow> element list \<Rightarrow> merge_state \<Rightarrow> exn + merge_state" where
  "add_programmes win_start win_end [] st = Inr st"
| "add_programmes win_start win_end (pr # prs) st =
     (case add_programme win_start win_end pr st of
        Inl e \<Rightarrow> Inl e
      | Inr st' \<Rightarrow> add_programmes win_start win_end prs st')"

text \<open>One fetched document: its channels, then its programmes.\<close>

definition merge_doc ::
  "instant \<Rightarrow> instant \<Rightarrow> element \<Rightarrow> merge_state \<Rightarrow> exn + merge_state" where
  "merge_doc win_start win_end root st =
     add_programmes win_start win_end (findall ''programme'' root)
       (add_channels (findall ''channel'' root) st)"


section \<open>The fetcher\<close>

text \<open>
  What \<^verbatim>\<open>fetch_xml\<close> does that can be seen from outside: the requests it sends, by attempt
  number, and the seconds it sleeps.
\<close>

datatype event = Get nat | Sleep nat

text \<open>
  What \<^verbatim>\<open>fetch_xml\<close> raises: the exception of the last failed attempt, or the
  \<^verbatim>\<open>TypeError\<close> of \<^verbatim>\<open>raise None\<close> when no attempt was made.
\<close>

datatype 'e fetch_error = Propagated 'e | RaisedNone

text \<open>
  The loop of \<^verbatim>\<open>fetch_xml\<close> over the attempt numbers still to try. The body of the
  \<^verbatim>\<open>try\<close> (request, status check, decompression, XML parse) is the parameter \<open>attempt\<close>:
  for an attempt number it gives the parsed root element or the exception raised.
\<close>

fun fetch_attempts ::
  "(nat \<Rightarrow> 'e + element) \<Rightarrow> nat list \<Rightarrow> 'e option \<Rightarrow> event list
     \<Rightarrow> ('e fetch_error + element) \<times> event list" where
  "fetch_attempts attempt [] last_exn evs =
     (case last_exn of None \<Rightarrow> (Inl RaisedNone, evs) | Some e \<Rightarrow> (Inl (Propagated e), evs))"
| "fetch_attempts attempt (a # as) last_exn evs =
     (case attempt a of
        Inr doc \<Rightarrow> (Inr doc, evs @ [Get a])
      | Inl e \<Rightarrow> fetch_attempts attempt as (Some e) (evs @ [Get a, Sleep (2 * a)]))"

definition fetch_xml ::
  "(nat \<Rightarrow> 'e + element) \<Rightarrow> nat \<Rightarrow> ('e fetch_error + element) \<times> event list" where
  "fetch_xml attempt retries = fetch_attempts attempt [1..<retries + 1] None []"


section \<open>The run\<close>

text \<open>
  The loop of \<^verbatim>\<open>main\<close> over the source URLs. \<open>net url\<close> is what the attempts on \<open>url\<close>
  yield. A failed fetch is reported and skipped; an exception of the parser is not caught
  and ends the loop.
\<close>

fun main_loop ::
  "instant \<Rightarrow> instant \<Rightarrow> (string \<Rightarrow> nat \<Rightarrow> 'e + element) \<Rightarrow> string list \<Rightarrow> merge_state
     \<Rightarrow> exn + merge_state" where
  "main_loop win_start win_end net [] st = Inr st"
| "main_loop win_start win_end net (url # urls) st =
     (case fst (fetch_xml (net url) 3) of
        Inl e \<Rightarrow> main_loop win_start win_end net urls (st\<lparr>stderr := stderr st @ [url]\<rparr>)
      | Inr root \<Rightarrow>
          (case merge_doc win_start win_end root (st\<lparr>sources_ok := sources_ok st + 1\<rparr>) of
             Inl e \<Rightarrow> Inl e
           | Inr st' \<Rightarrow> main_loop win_start win_end net urls st'))"


section \<open>Files and the run as a whole\<close>

text \<open>
  The contents of a file are bytes, one \<^typ>\<open>char\<close> each; the file system maps the paths
  that exist to their contents.
\<close>

type_synonym bytes = "char list"
type_synonym filesystem = "string \<rightharpoonup> bytes"

definition BASE_URL :: string where
  "BASE_URL = ''https://epgshare01.online/epgshare01/''"

definition FILES :: "string list" where
  "FILES =
    [''epg_ripper_BEIN1.xml.gz'',
     ''epg_ripper_BR1.xml.gz'',
     ''epg_ripper_BR2.xml.gz'',
     ''epg_ripper_CA2.xml.gz'',
     ''epg_ripper_UK1.xml.gz'',
     ''epg_ripper_DELUXEMUSIC1.xml.gz'',
     ''epg_ripper_DIRECTVSPORTS1.xml.gz'',
     ''epg_ripper_DISTROTV1.xml.gz'',
     ''epg_ripper_DRAFTKINGS1.xml.gz'',
     ''epg_ripper_DUMMY_CHANNELS.xml.gz'',
     ''epg_ripper_ES1.xml.gz'',
     ''epg_ripper_FANDUEL1.xml.gz'',
     ''epg_ripper_FI1.xml.gz'',
     ''epg_ripper_PEACOCK1.xml.gz'',
     ''epg_ripper_PLEX1.xml.gz'',
     ''epg_ripper_POWERNATION1.xml.gz'',
     ''epg_ripper_RAKUTEN1.xml.gz'',
     ''epg_ripper_RALLY_TV1.xml.gz'',
     ''epg_ripper_SPORTKLUB1.xml.gz'',
     ''epg_ripper_SSPORTPLUS1.xml.gz'',
     ''epg_ripper_TBNPLUS1.xml.gz'',
     ''epg_ripper_THESPORTPLUS1.xml.gz'',
     ''epg_ripper_US2.xml.gz'',
     ''epg_ripper_US_LOCALS1.xml.gz'',
     ''epg_ripper_US_SPORTS1.xml.gz'',
     ''locomotiontv.xml.gz'']"

definition URLS :: "string list" where
  "URLS = map (\<lambda>f. BASE_URL @ f) FILES"

definition KEEP_PAST_DAYS :: int where
  "KEEP_PAST_DAYS = 2"

definition KEEP_FUTURE_DAYS :: int where
  "KEEP_FUTURE_DAYS = 7"

definition OUTPUT_NAME :: string where
  "OUTPUT_NAME = ''merged_epg.xml.gz''"

definition PREVIOUS_DIST :: string where
  "PREVIOUS_DIST = ''dist/epg.xml.gz''"

text \<open>
  How the process ends: \<^verbatim>\<open>sys.exit(n)\<close> or the return of \<^verbatim>\<open>main\<close> (status 0), or an
  exception nobody catches (the interpreter prints a traceback and the status is 1).
\<close>

datatype ending = Exit nat | Uncaught exn

fun exit_status :: "ending \<Rightarrow> nat" where
  "exit_status (Exit n) = n"
| "exit_status (Uncaught e) = 1"

text \<open>The three messages printed on standard output.\<close>

datatype message = Reused_previous | No_previous | Merge_ok nat nat nat

text \<open>
  What a run leaves behind: the file system after each file operation, in order (empty
  when the run touches no file), the messages printed and how the process ended.
\<close>

record run =
  fs_trace :: "filesystem list"
  stdout :: "message list"
  ended :: ending


text \<open>
  \<^verbatim>\<open>open(path, "wb")\<close> creates the file or truncates it to length 0; the data arrive
  afterwards. Both \<^verbatim>\<open>shutil.copyfile\<close> and \<^verbatim>\<open>gzip.open\<close> open their destination that
  way, so writing \<open>b\<close> to \<open>path\<close> goes through the state in which \<open>path\<close> is empty.
\<close>

definition write_file :: "string \<Rightarrow> bytes \<Rightarrow> filesystem \<Rightarrow> filesystem list" where
  "write_file path b fs = [fs(path \<mapsto> []), fs(path \<mapsto> b)]"

definition fallback_to_previous :: "filesystem \<Rightarrow> run" where
  "fallback_to_previous fs =
     (case fs PREVIOUS_DIST of
        Some b \<Rightarrow>
          \<lparr>fs_trace = write_file OUTPUT_NAME b fs, stdout = [Reused_previous], ended = Exit 0\<rparr>
      | None \<Rightarrow> \<lparr>fs_trace = [], stdout = [No_previous], ended = Exit 1\<rparr>)"

text \<open>
  The window of the run; \<^verbatim>\<open>datetime\<close> arithmetic raises \<^verbatim>\<open>OverflowError\<close> when the
  result leaves the years 1..9999.
\<close>

definition window :: "instant \<Rightarrow> exn + instant \<times> instant" where
  "window now =
     (let win_start = now - days KEEP_PAST_DAYS;
          win_end = now + days KEEP_FUTURE_DAYS
      in if in_range win_start \<and> in_range win_end then Inr (win_start, win_end)
         else Inl OverflowError)"

text \<open>The first part of \<^verbatim>\<open>main\<close>: the window and the loop over \<open>URLS\<close>.\<close>

definition merge_phase :: "instant \<Rightarrow> (string \<Rightarrow> nat \<Rightarrow> 'e + element) \<Rightarrow> exn + merge_state" where
  "merge_phase now net =
     (case window now of
        Inl e \<Rightarrow> Inl e
      | Inr (win_start, win_end) \<Rightarrow> main_loop win_start win_end net URLS init_state)"

text \<open>The condition of the fallback guard.\<close>

definition total_failure :: "merge_state \<Rightarrow> bool" where
  "total_failure st =
     (sources_ok st = 0 \<or> (channel_ids_seen st = {} \<and> programme_keys_seen st = {}))"

text \<open>
  \<^verbatim>\<open>main\<close>. \<open>now\<close> is the clock reading, \<open>net\<close> the network, \<open>fs\<close> the file system at the
  start. \<open>encode\<close> stands for the serialization of the \<^verbatim>\<open><tv>\<close> element (UTF-8, with XML
  declaration) followed by gzip compression.
\<close>

definition main ::
  "(element list \<Rightarrow> bytes) \<Rightarrow> instant \<Rightarrow> (string \<Rightarrow> nat \<Rightarrow> 'e + element) \<Rightarrow> filesystem \<Rightarrow> run" where
  "main encode now net fs =
     (case merge_phase now net of
        Inl e \<Rightarrow> \<lparr>fs_trace = [], stdout = [], ended = Uncaught e\<rparr>
      | Inr st \<Rightarrow>
          if total_failure st then fallback_to_previous fs
          else \<lparr>fs_trace = write_file OUTPUT_NAME (encode (tv_root st)) fs,
                stdout = [Merge_ok (sources_ok st) (card (channel_ids_seen st))
                            (card (programme_keys_seen st))],
                ended = Exit 0\<rparr>)"


section \<open>Notions used to state the properties\<close>

text \<open>
  The UTC offset, in minutes, that the five characters \<open>sg h1 h2 m1 m2\<close> (a sign and
  four digits, \<^verbatim>\<open>+HHMM\<close> or \<^verbatim>\<open>-HHMM\<close>) denote.
\<close>

definition offset_minutes :: "char \<Rightarrow> char \<Rightarrow> char \<Rightarrow> char \<Rightarrow> char \<Rightarrow> int" where
  "offset_minutes sg h1 h2 m1 m2 =
     (if sg = CHR ''+'' then 1 else - 1) *
     ((10 * digit_val h1 + digit_val h2) * 60 + (10 * digit_val m1 + digit_val m2))"

text \<open>
  First-seen-wins selection: the elements of a list whose key is neither in \<open>seen\<close> nor
  the key of an earlier element of the list, in the order of the list.
\<close>

fun first_seen :: "('a \<Rightarrow> 'k) \<Rightarrow> 'k set \<Rightarrow> 'a list \<Rightarrow> 'a list" where
  "first_seen key seen [] = []"
| "first_seen key seen (x # xs) =
     (if key x \<in> seen then first_seen key seen xs
      else x # first_seen key (insert (key x) seen) xs)"

text \<open>The root elements of the sources whose fetch succeeded, in the order of the URLs.\<close>

fun fetched :: "(string \<Rightarrow> nat \<Rightarrow> 'e + element) \<Rightarrow> string list \<Rightarrow> element list" where
  "fetched net [] = []"
| "fetched net (url # urls) =
     (case fst (fetch_xml (net url) 3) of
        Inl e \<Rightarrow> fetched net urls
      | Inr root \<Rightarrow> root # fetched net urls)"

text \<open>The channel and the programme elements of the unified document, in its order.\<close>

definition retained_channels :: "merge_state \<Rightarrow> element list" where
  "retained_channels st = filter (\<lambda>e. tag e = ''channel'') (tv_root st)"

definition retained_programmes :: "merge_state \<Rightarrow> element list" where
  "retained_programmes st = filter (\<lambda>e. tag e = ''programme'') (tv_root st)"

definition channel_id :: "element \<Rightarrow> string" where
  "channel_id ch = get_or_empty ch ''id''"

text \<open>
  The channel records of the documents that have a non-empty id, and the programme records
  that pass the window test, both in source-list order and, within a document, in document
  order.
\<close>

definition candidate_channels :: "element list \<Rightarrow> element list" where
  "candidate_channels docs =
     filter (\<lambda>ch. channel_id ch \<noteq> []) (concat (map (findall ''channel'') docs))"

definition passes :: "instant \<Rightarrow> instant \<Rightarrow> element \<Rightarrow> bool" where
  "passes win_start win_end pr = (window_test win_start win_end pr = Inr True)"

definition candidate_programmes :: "instant \<Rightarrow> instant \<Rightarrow> element list \<Rightarrow> element list" where
  "candidate_programmes win_start win_end docs =
     filter (passes win_start win_end) (concat (map (findall ''programme'') docs))"

text \<open>
  Two fetch outcomes agree on programmes: both failed, or both gave a document and the two
  documents have the same programme elements.
\<close>

definition same_programmes ::
  "('e fetch_error + element) \<Rightarrow> ('f fetch_error + element) \<Rightarrow> bool" where
  "same_programmes a b =
     (case a of
        Inl e \<Rightarrow> (case b of Inl f \<Rightarrow> True | Inr r' \<Rightarrow> False)
      | Inr r \<Rightarrow> (case b of Inl f \<Rightarrow> False
                  | Inr r' \<Rightarrow> findall ''programme'' r = findall ''programme'' r'))"

text \<open>Two states agree on the programme side: the keys seen and the retained programmes.\<close>

definition same_programme_side :: "merge_state \<Rightarrow> merge_state \<Rightarrow> bool" where
  "same_programme_side s t =
     (programme_keys_seen s = programme_keys_seen t
      \<and> retained_programmes s = retained_programmes t)"

text \<open>Every sleep of a trace is followed at once by another attempt.\<close>

fun sleeps_only_between :: "event list \<Rightarrow> bool" where
  "sleeps_only_between [] = True"
| "sleeps_only_between (Get a # evs) = sleeps_only_between evs"
| "sleeps_only_between (Sleep n # Get a # evs) = sleeps_only_between evs"
| "sleeps_only_between (Sleep n # evs) = False"

text \<open>The content of the output path in each state of a trace.\<close>

definition output_history :: "run \<Rightarrow> bytes option list" where
  "output_history r = map (\<lambda>f. f OUTPUT_NAME) (fs_trace r)"

section \<open>Example data\<close>

text \<open>
  Two small feeds. Both list channel \<open>X1\<close>, with different display names. The first has a
  programme inside the window and one from 2023; the second repeats the first programme
  (its title differs only in surrounding whitespace) and has the same broadcast again with
  the offset written without a space.
\<close>

definition ex_channel_a :: element where
  "ex_channel_a =
     Element ''channel'' [(''id'', ''X1'')] None [Element ''display-name'' [] (Some ''One'') []]"

definition ex_channel_b :: element where
  "ex_channel_b =
     Element ''channel'' [(''id'', ''X1'')] None [Element ''display-name'' [] (Some ''Uno'') []]"

definition ex_news :: element where
  "ex_news =
     Element ''programme''
       [(''start'', ''20240110120000 +0000''), (''stop'', ''20240110130000 +0000''),
        (''channel'', ''X1'')]
       None [Element ''title'' [] (Some ''News'') []]"

definition ex_news_again :: element where
  "ex_news_again =
     Element ''programme''
       [(''start'', ''20240110120000 +0000''), (''stop'', ''20240110130000 +0000''),
        (''channel'', ''X1'')]
       None [Element ''title'' [] (Some '' News '') [], Element ''desc'' [] (Some ''Late'') []]"

definition ex_news_respelled :: element where
  "ex_news_respelled =
     Element ''programme''
       [(''start'', ''20240110120000+0000''), (''stop'', ''20240110130000+0000''),
        (''channel'', ''X1'')]
       None [Element ''title'' [] (Some ''News'') []]"

definition ex_old :: element where
  "ex_old =
     Element ''programme''
       [(''start'', ''20230101000000''), (''stop'', ''20230101010000''), (''channel'', ''X1'')]
       None [Element ''title'' [] (Some ''Old'') []]"

definition ex_orphan :: element where
  "ex_orphan =
     Element ''programme'' [(''start'', ''20240110140000'')] None []"

definition ex_doc_a :: element where
  "ex_doc_a = Element ''tv'' [] None [ex_channel_a, ex_news, ex_old]"

definition ex_doc_b :: element where
  "ex_doc_b = Element ''tv'' [] None [ex_channel_b, ex_news_again, ex_news_respelled]"

text \<open>
  A network on which \<open>a\<close> answers at once, \<open>b\<close> answers at the third attempt and every other
  URL fails each time.
\<close>

definition ex_net :: "string \<Rightarrow> nat \<Rightarrow> unit + element" where
  "ex_net url attempt =
     (if url = ''a'' then Inr ex_doc_a
      else if url = ''b'' \<and> attempt = 3 then Inr ex_doc_b
      else Inl ())"

text \<open>The window of a run on 2024-01-10T00:00:00Z.\<close>

definition ex_win_start :: instant where
  "ex_win_start = datetime_utc 2024 1 8 0 0 0"

definition ex_win_end :: instant where
  "ex_win_end = datetime_utc 2024 1 17 0 0 0"

text \<open>The state in which the loop over the URLs \<open>a\<close>, \<open>c\<close>, \<open>b\<close> ends on that network.\<close>

definition ex_urls :: "string list" where
  "ex_urls = [''a'', ''c'', ''b'']"

definition ex_state :: merge_state where
  "ex_state =
     \<lparr>tv_root = [ex_channel_a, ex_news, ex_news_respelled],
      channel_ids_seen = {''X1''},
      programme_keys_seen =
        {(''X1'', ''20240110120000 +0000'', ''20240110130000 +0000'', ''News''),
         (''X1'', ''20240110120000+0000'', ''20240110130000+0000'', ''News'')},
      sources_ok = 2,
      stderr = [''c'']\<rparr>"

text \<open>
  A feed with a programme that names no channel, once with its channel record and once
  without any channel record.
\<close>

definition ex_doc_c :: element where
  "ex_doc_c = Element ''tv'' [] None [ex_channel_a, ex_orphan, ex_news]"

definition ex_doc_c_bare :: element where
  "ex_doc_c_bare = Element ''tv'' [] None [ex_orphan, ex_news]"

definition ex_net_c :: "string \<Rightarrow> nat \<Rightarrow> unit + element" where
  "ex_net_c url attempt = (if url = ''a'' then Inr ex_doc_c else Inl ())"

definition ex_net_c_bare :: "string \<Rightarrow> nat \<Rightarrow> unit + element" where
  "ex_net_c_bare url attempt = (if url = ''a'' then Inr ex_doc_c_bare else Inl ())"

text \<open>
  Runs on 2024-01-10T00:00:00Z over the configured URLs: a network on which every source
  is down, and one on which only the first source answers. \<open>ex_encode\<close> is a stand-in for
  serialization and compression: the gzip magic number followed by the tags of the
  elements.
\<close>

definition ex_now :: instant where
  "ex_now = datetime_utc 2024 1 10 0 0 0"

definition ex_net_down :: "string \<Rightarrow> nat \<Rightarrow> unit + element" where
  "ex_net_down url attempt = Inl ()"

definition ex_net_one :: "string \<Rightarrow> nat \<Rightarrow> unit + element" where
  "ex_net_one url attempt = (if url = hd URLS then Inr ex_doc_a else Inl ())"

definition ex_encode :: "element list \<Rightarrow> bytes" where
  "ex_encode root = [CHR 0x1F, CHR 0x8B] @ concat (map tag root)"

definition ex_fs_prev :: filesystem where
  "ex_fs_prev = [PREVIOUS_DIST \<mapsto> ''previous'']"

definition ex_state_one :: merge_state where
  "ex_state_one =
     \<lparr>tv_root = [ex_channel_a, ex_news],
      channel_ids_seen = {''X1''},
      programme_keys_seen =
        {(''X1'', ''20240110120000 +0000'', ''20240110130000 +0000'', ''News'')},
      sources_ok = 1,
      stderr = tl URLS\<rparr>"

definition ex_state_down :: merge_state where
  "ex_state_down = init_state\<lparr>stderr := URLS\<rparr>"


text \<open>The same network, except that the first source answers at the second attempt only.\<close>

definition ex_net_one_late :: "string \<Rightarrow> nat \<Rightarrow> unit + element" where
  "ex_net_one_late url attempt =
     (if url = hd URLS \<and> 2 \<le> attempt then Inr ex_doc_a else Inl ())"

text \<open>A feed in which one programme has month 13 in its start time, as only source.\<close>

definition ex_bad :: element where
  "ex_bad = Element ''programme'' [(''start'', ''20241301000000''), (''channel'', ''X1'')] None []"

definition ex_doc_bad :: element where
  "ex_doc_bad = Element ''tv'' [] None [ex_channel_a, ex_news, ex_bad]"

definition ex_net_bad :: "string \<Rightarrow> nat \<Rightarrow> unit + element" where
  "ex_net_bad url attempt = (if url = hd URLS then Inr ex_doc_bad else Inl ())"

section \<open>The timestamp parser: properties\<close>

lemma not_isspace_marks:
  "\<not> isspace CHR ''+''" "\<not> isspace CHR ''-''" "\<not> isspace CHR ''Z''"
  by (simp_all add: isspace_def)

lemma dropWhile_isspace_prefix:
  "list_all isspace sp \<Longrightarrow> \<not> isspace c \<Longrightarrow> dropWhile isspace (sp @ c # r) = c # r"
  by (induction sp) simp_all

lemma re_match_digits:
  "length ds = 14 \<Longrightarrow> list_all isdigit ds \<Longrightarrow> re_match (ds @ rest) = Some (ds, match_tz rest)"
  by (simp add: re_match_def)

lemma match_tz_Nil: "match_tz [] = None"
  by (simp add: match_tz_def)

lemma match_tz_Z: "list_all isspace sp \<Longrightarrow> match_tz (sp @ CHR ''Z'' # r) = Some ''Z''"
  by (simp add: match_tz_def dropWhile_isspace_prefix not_isspace_marks)

lemma match_tz_offset:
  "list_all isspace sp \<Longrightarrow> sg = CHR ''+'' \<or> sg = CHR ''-'' \<Longrightarrow> list_all isdigit [h1, h2, m1, m2]
   \<Longrightarrow> match_tz (sp @ sg # h1 # h2 # m1 # m2 # r) = Some [sg, h1, h2, m1, m2]"
  by (auto simp add: match_tz_def dropWhile_isspace_prefix not_isspace_marks)

lemma parse_plain:
  assumes "length ds = 14" "list_all isdigit ds" "strptime ds = Inr base"
  shows "parse_xmltv_time ds = Inr (Some (replace_utc base))"
proof -
  have "ds \<noteq> []" using assms(1) by auto
  moreover have "re_match ds = Some (ds, None)"
    using re_match_digits [OF assms(1,2), of "[]"] by (simp add: match_tz_Nil)
  ultimately show ?thesis using assms(3) by (simp add: parse_xmltv_time_def)
qed

lemma parse_Z:
  assumes "length ds = 14" "list_all isdigit ds" "strptime ds = Inr base" "list_all isspace sp"
  shows "parse_xmltv_time (ds @ sp @ ''Z'' @ r) = Inr (Some (replace_utc base))"
proof -
  have "ds @ sp @ ''Z'' @ r \<noteq> []" using assms(1) by auto
  moreover have "re_match (ds @ sp @ ''Z'' @ r) = Some (ds, Some ''Z'')"
    using re_match_digits [OF assms(1,2), of "sp @ ''Z'' @ r"] match_tz_Z [OF assms(4), of r]
    by simp
  ultimately show ?thesis using assms(3) by (simp add: parse_xmltv_time_def)
qed

lemma parse_offset:
  assumes "length ds = 14" "list_all isdigit ds" "strptime ds = Inr base" "list_all isspace sp"
    and "sg = CHR ''+'' \<or> sg = CHR ''-''" "list_all isdigit [h1, h2, m1, m2]"
    and "- 1440 < offset_minutes sg h1 h2 m1 m2" "offset_minutes sg h1 h2 m1 m2 < 1440"
    and "in_range (replace_utc base - offset_minutes sg h1 h2 m1 m2 * 60 * usec)"
  shows "parse_xmltv_time (ds @ sp @ sg # h1 # h2 # m1 # m2 # r)
         = Inr (Some (replace_utc base - offset_minutes sg h1 h2 m1 m2 * 60 * usec))"
proof -
  let ?ts = "ds @ sp @ sg # h1 # h2 # m1 # m2 # r"
  have ne: "?ts \<noteq> []" using assms(1) by auto
  have m: "re_match ?ts = Some (ds, Some [sg, h1, h2, m1, m2])"
    using re_match_digits [OF assms(1,2), of "sp @ sg # h1 # h2 # m1 # m2 # r"]
      match_tz_offset [OF assms(4,5,6), of r] by simp
  have off: "(if hd [sg, h1, h2, m1, m2] = CHR ''+'' then 1 else - 1 :: int) *
        (int_of_digits (take 2 (drop 1 [sg, h1, h2, m1, m2])) * 60
         + int_of_digits (take 2 (drop 3 [sg, h1, h2, m1, m2])))
        = offset_minutes sg h1 h2 m1 m2"
    by (simp add: offset_minutes_def int_of_digits_def)
  show ?thesis
    unfolding parse_xmltv_time_def using ne m assms(3,7,8,9) off
    by (simp add: Let_def)
qed

text \<open>
  C6. A timestamp whose 14 digits \<open>ds\<close> are a valid civil date and time \<open>base\<close> is read as
  that time in UTC when nothing or (after optional whitespace) \<^verbatim>\<open>Z\<close> follows. When a sign
  and four digits follow, denoting an offset of less than 24 hours, the digits are read as
  local time at that offset and the result is the UTC instant obtained by subtracting the
  offset (provided that instant lies in the years 1..9999). In particular
  \<^verbatim>\<open>"20240101120000"\<close> is 2024-01-01T12:00:00Z, \<^verbatim>\<open>"20240101120000+0200"\<close> is
  2024-01-01T10:00:00Z, and the empty string and \<^verbatim>\<open>"not-a-date"\<close> give the absent result.
\<close>

theorem parse_xmltv_time_well_formed:
  assumes "length ds = 14" and "list_all isdigit ds" and "strptime ds = Inr base"
    and "list_all isspace sp"
  shows "parse_xmltv_time ds = Inr (Some (replace_utc base))
       \<and> parse_xmltv_time (ds @ sp @ ''Z'') = Inr (Some (replace_utc base))
       \<and> ((sg = CHR ''+'' \<or> sg = CHR ''-'') \<and> list_all isdigit [h1, h2, m1, m2]
            \<and> - 1440 < offset_minutes sg h1 h2 m1 m2 \<and> offset_minutes sg h1 h2 m1 m2 < 1440
            \<and> in_range (replace_utc base - offset_minutes sg h1 h2 m1 m2 * 60 * usec)
          \<longrightarrow> parse_xmltv_time (ds @ sp @ [sg, h1, h2, m1, m2])
              = Inr (Some (replace_utc base - offset_minutes sg h1 h2 m1 m2 * 60 * usec)))
       \<and> parse_xmltv_time ''20240101120000'' = Inr (Some (datetime_utc 2024 1 1 12 0 0))
       \<and> parse_xmltv_time ''20240101120000+0200'' = Inr (Some (datetime_utc 2024 1 1 10 0 0))
       \<and> parse_xmltv_time [] = Inr None
       \<and> parse_xmltv_time ''not-a-date'' = Inr None"
proof -
  have a: "parse_xmltv_time ds = Inr (Some (replace_utc base))"
    using parse_plain [OF assms(1,2,3)] .
  have b: "parse_xmltv_time (ds @ sp @ ''Z'') = Inr (Some (replace_utc base))"
    using parse_Z [OF assms, of "[]"] by simp
  have c: "(sg = CHR ''+'' \<or> sg = CHR ''-'') \<and> list_all isdigit [h1, h2, m1, m2]
            \<and> - 1440 < offset_minutes sg h1 h2 m1 m2 \<and> offset_minutes sg h1 h2 m1 m2 < 1440
            \<and> in_range (replace_utc base - offset_minutes sg h1 h2 m1 m2 * 60 * usec)
          \<longrightarrow> parse_xmltv_time (ds @ sp @ [sg, h1, h2, m1, m2])
              = Inr (Some (replace_utc base - offset_minutes sg h1 h2 m1 m2 * 60 * usec))"
    using parse_offset [OF assms, of sg h1 h2 m1 m2 "[]"] by blast
  have d: "parse_xmltv_time ''20240101120000'' = Inr (Some (datetime_utc 2024 1 1 12 0 0))"
    by code_simp
  have e: "parse_xmltv_time ''20240101120000+0200'' = Inr (Some (datetime_utc 2024 1 1 10 0 0))"
    by code_simp
  have f: "parse_xmltv_time [] = Inr None"
    by (simp add: parse_xmltv_time_def)
  have g: "parse_xmltv_time ''not-a-date'' = Inr None"
    by code_simp
  from a b c d e f g show ?thesis by blast
qed

theorem parse_xmltv_time_well_formed_witness:
  "parse_xmltv_time ''20240229235959'' = Inr (Some (datetime_utc 2024 2 29 23 59 59))
   \<and> parse_xmltv_time ''20240229235959 Z'' = Inr (Some (datetime_utc 2024 2 29 23 59 59))
   \<and> parse_xmltv_time ''20240229235959 -0130'' = Inr (Some (datetime_utc 2024 3 1 1 29 59))"
proof -
  let ?base = "\<lparr>year = 2024, month = 2, day = 29, hour = 23, minute = 59, second = 59\<rparr>"
  have h1: "length ''20240229235959'' = 14" by simp
  have h2: "list_all isdigit ''20240229235959''" by (simp add: isdigit_def)
  have h3: "strptime ''20240229235959'' = Inr ?base" by code_simp
  have h4: "list_all isspace '' ''" by (simp add: isspace_def)
  have u: "replace_utc ?base = datetime_utc 2024 2 29 23 59 59"
    by (simp add: replace_utc_def)
  have o: "offset_minutes CHR ''-'' CHR ''0'' CHR ''1'' CHR ''3'' CHR ''0'' = - 90"
    by (simp add: offset_minutes_def digit_val_def)
  have v: "datetime_utc 2024 2 29 23 59 59 - (- 90) * 60 * usec = datetime_utc 2024 3 1 1 29 59"
    by code_simp
  have r: "in_range (datetime_utc 2024 3 1 1 29 59)" by code_simp
  have p: "(CHR ''-'' = CHR ''+'' \<or> CHR ''-'' = CHR ''-'') \<and> list_all isdigit ''0130''
            \<and> - 1440 < (- 90 :: int) \<and> (- 90 :: int) < 1440"
    by (simp add: isdigit_def)
  from parse_xmltv_time_well_formed [OF h1 h2 h3 h4,
      of "CHR ''-''" "CHR ''0''" "CHR ''1''" "CHR ''3''" "CHR ''0''"]
  show ?thesis unfolding u o v using r p by simp
qed

text \<open>
  C4. The parser is not total. It returns the absent result for the empty string and for a
  string that does not start with 14 digits, but 14 digits that are no valid date and time
  (month 13, February 30th) raise \<^verbatim>\<open>ValueError\<close>, an offset of 24 hours or more raises
  \<^verbatim>\<open>ValueError\<close>, and an offset that moves the time out of the years 1..9999 raises
  \<^verbatim>\<open>OverflowError\<close>. Characters after the accepted grammar do not give the absent
  result either: the match is a prefix match and they are ignored. Nothing in \<^verbatim>\<open>main\<close>
  catches the exception: one such timestamp in one feed ends the run with a traceback,
  with no output written and no fallback to the previous artifact.
\<close>

theorem parse_xmltv_time_raises:
  "parse_xmltv_time ''20241301000000'' = Inl ValueError
   \<and> parse_xmltv_time ''20240230120000'' = Inl ValueError
   \<and> parse_xmltv_time ''20240101120000+2400'' = Inl ValueError
   \<and> parse_xmltv_time ''00010101000000+0100'' = Inl OverflowError
   \<and> parse_xmltv_time ''20240101120000xyz'' = Inr (Some (datetime_utc 2024 1 1 12 0 0))
   \<and> ended (main ex_encode ex_now ex_net_bad ex_fs_prev) = Uncaught ValueError
   \<and> exit_status (ended (main ex_encode ex_now ex_net_bad ex_fs_prev)) = 1
   \<and> fs_trace (main ex_encode ex_now ex_net_bad ex_fs_prev) = []"
proof -
  have m: "merge_phase ex_now ex_net_bad = Inl ValueError" by code_simp
  have f: "ended (main ex_encode ex_now ex_net_bad ex_fs_prev) = Uncaught ValueError
           \<and> exit_status (ended (main ex_encode ex_now ex_net_bad ex_fs_prev)) = 1
           \<and> fs_trace (main ex_encode ex_now ex_net_bad ex_fs_prev) = []"
    by (simp add: main_def m)
  have a: "parse_xmltv_time ''20241301000000'' = Inl ValueError" by code_simp
  have b: "parse_xmltv_time ''20240230120000'' = Inl ValueError" by code_simp
  have c: "parse_xmltv_time ''20240101120000+2400'' = Inl ValueError" by code_simp
  have d: "parse_xmltv_time ''00010101000000+0100'' = Inl OverflowError" by code_simp
  have e: "parse_xmltv_time ''20240101120000xyz'' = Inr (Some (datetime_utc 2024 1 1 12 0 0))"
    by code_simp
  from a b c d e f show ?thesis by blast
qed


section \<open>The window test: properties\<close>



section \<open>The merge engine: properties\<close>

lemma first_seen_append:
  "first_seen k S (xs @ ys) = first_seen k S xs @ first_seen k (S \<union> k ` set xs) ys"
  by (induction xs arbitrary: S) (auto simp add: insert_absorb)

lemma first_seen_subset: "set (first_seen k S xs) \<subseteq> set xs"
  by (induction xs arbitrary: S) auto

lemma first_seen_keys: "k ` set (first_seen k S xs) = k ` set xs - S"
  by (induction xs arbitrary: S) auto

lemma distinct_first_seen: "distinct (map k (first_seen k S xs))"
proof (induction xs arbitrary: S)
  case Nil
  show ?case by simp
next
  case (Cons x xs)
  have "k x \<notin> k ` set (first_seen k (insert (k x) S) xs)"
    unfolding first_seen_keys by simp
  with Cons show ?case by simp
qed

lemma subseq_first_seen: "subseq (first_seen k S xs) xs"
  by (induction xs arbitrary: S) auto

lemma find_first_seen:
  "v \<notin> S \<Longrightarrow> find (\<lambda>y. k y = v) (first_seen k S xs) = find (\<lambda>y. k y = v) xs"
  by (induction xs arbitrary: S) auto

lemma filter_first_seen_all:
  "\<forall>x\<in>set xs. P x \<Longrightarrow> filter P (first_seen k S xs) = first_seen k S xs"
  using first_seen_subset [of k S xs] by (auto simp: filter_id_conv)

lemma filter_first_seen_none:
  "\<forall>x\<in>set xs. \<not> P x \<Longrightarrow> filter P (first_seen k S xs) = []"
  using first_seen_subset [of k S xs] by (auto simp: filter_empty_conv)

lemma add_channels_Cons: "add_channels (ch # chs) st = add_channels chs (add_channel ch st)"
  by (simp add: add_channels_def)

lemma add_channels_Nil: "add_channels [] st = st"
  by (simp add: add_channels_def)

lemma add_channels_char:
  "tv_root (add_channels chs st)
     = tv_root st @ first_seen channel_id (channel_ids_seen st) (filter (\<lambda>ch. channel_id ch \<noteq> []) chs)
   \<and> channel_ids_seen (add_channels chs st)
     = channel_ids_seen st \<union> channel_id ` set (filter (\<lambda>ch. channel_id ch \<noteq> []) chs)
   \<and> programme_keys_seen (add_channels chs st) = programme_keys_seen st
   \<and> sources_ok (add_channels chs st) = sources_ok st
   \<and> stderr (add_channels chs st) = stderr st"
proof (induction chs arbitrary: st)
  case Nil
  show ?case by (simp add: add_channels_Nil)
next
  case (Cons ch chs)
  show ?case
    unfolding add_channels_Cons
    using Cons [of "add_channel ch st"]
    by (auto simp add: add_channel_def channel_id_def Let_def)
qed

lemma add_programme_Inr:
  assumes "add_programme ws we pr st = Inr st'"
  shows "tv_root st' = tv_root st @ first_seen programme_key (programme_keys_seen st) (filter (passes ws we) [pr])
   \<and> programme_keys_seen st' = programme_keys_seen st \<union> programme_key ` set (filter (passes ws we) [pr])
   \<and> channel_ids_seen st' = channel_ids_seen st
   \<and> sources_ok st' = sources_ok st
   \<and> stderr st' = stderr st"
  using assms
  by (auto simp add: add_programme_def passes_def Let_def split: sum.splits if_splits)

lemma add_programmes_char:
  assumes "add_programmes ws we prs st = Inr st'"
  shows "tv_root st' = tv_root st @ first_seen programme_key (programme_keys_seen st) (filter (passes ws we) prs)
   \<and> programme_keys_seen st' = programme_keys_seen st \<union> programme_key ` set (filter (passes ws we) prs)
   \<and> channel_ids_seen st' = channel_ids_seen st
   \<and> sources_ok st' = sources_ok st
   \<and> stderr st' = stderr st"
  using assms
proof (induction prs arbitrary: st)
  case Nil
  then show ?case by simp
next
  case (Cons pr prs)
  from Cons.prems obtain st1 where
    s1: "add_programme ws we pr st = Inr st1" and s2: "add_programmes ws we prs st1 = Inr st'"
    by (auto split: sum.splits)
  note a = add_programme_Inr [OF s1]
  note b = Cons.IH [OF s2]
  have "first_seen programme_key (programme_keys_seen st) (filter (passes ws we) (pr # prs))
        = first_seen programme_key (programme_keys_seen st) (filter (passes ws we) [pr])
          @ first_seen programme_key (programme_keys_seen st1) (filter (passes ws we) prs)"
    using first_seen_append [of programme_key "programme_keys_seen st" "filter (passes ws we) [pr]" "filter (passes ws we) prs"] a
    by (simp add: insert_absorb)
  then show ?case using a b by auto
qed


lemma tag_findall: "x \<in> set (findall t root) \<Longrightarrow> tag x = t"
  by (simp add: findall_def)

lemma merge_doc_char:
  assumes "merge_doc ws we root st = Inr st'"
  shows "retained_channels st'
           = retained_channels st @ first_seen channel_id (channel_ids_seen st) (candidate_channels [root])"
    and "channel_ids_seen st' = channel_ids_seen st \<union> channel_id ` set (candidate_channels [root])"
    and "retained_programmes st'
           = retained_programmes st
             @ first_seen programme_key (programme_keys_seen st) (candidate_programmes ws we [root])"
    and "programme_keys_seen st'
           = programme_keys_seen st \<union> programme_key ` set (candidate_programmes ws we [root])"
    and "sources_ok st' = sources_ok st"
    and "stderr st' = stderr st"
proof -
  let ?chs = "filter (\<lambda>ch. channel_id ch \<noteq> []) (findall ''channel'' root)"
  let ?prs = "filter (passes ws we) (findall ''programme'' root)"
  let ?st1 = "add_channels (findall ''channel'' root) st"
  note c = add_channels_char [of "findall ''channel'' root" st]
  from assms have "add_programmes ws we (findall ''programme'' root) ?st1 = Inr st'"
    by (simp add: merge_doc_def)
  note p = add_programmes_char [OF this]
  have root: "tv_root st' = tv_root st @ first_seen channel_id (channel_ids_seen st) ?chs
                @ first_seen programme_key (programme_keys_seen st) ?prs"
    using c p by simp
  have cc: "filter (\<lambda>e. tag e = ''channel'') (first_seen channel_id (channel_ids_seen st) ?chs)
            = first_seen channel_id (channel_ids_seen st) ?chs"
    by (rule filter_first_seen_all) (auto intro: tag_findall)
  have cp: "filter (\<lambda>e. tag e = ''channel'') (first_seen programme_key (programme_keys_seen st) ?prs)
            = []"
    by (rule filter_first_seen_none) (auto dest: tag_findall)
  have pc: "filter (\<lambda>e. tag e = ''programme'') (first_seen channel_id (channel_ids_seen st) ?chs)
            = []"
    by (rule filter_first_seen_none) (auto dest: tag_findall)
  have pp: "filter (\<lambda>e. tag e = ''programme'') (first_seen programme_key (programme_keys_seen st) ?prs)
            = first_seen programme_key (programme_keys_seen st) ?prs"
    by (rule filter_first_seen_all) (auto intro: tag_findall)
  show "retained_channels st'
           = retained_channels st @ first_seen channel_id (channel_ids_seen st) (candidate_channels [root])"
    by (simp add: retained_channels_def root cc cp candidate_channels_def)
  show "retained_programmes st'
           = retained_programmes st
             @ first_seen programme_key (programme_keys_seen st) (candidate_programmes ws we [root])"
    by (simp add: retained_programmes_def root pc pp candidate_programmes_def)
  show "channel_ids_seen st' = channel_ids_seen st \<union> channel_id ` set (candidate_channels [root])"
    using c p by (simp add: candidate_channels_def)
  show "programme_keys_seen st'
           = programme_keys_seen st \<union> programme_key ` set (candidate_programmes ws we [root])"
    using c p by (simp add: candidate_programmes_def)
  show "sources_ok st' = sources_ok st" using c p by simp
  show "stderr st' = stderr st" using c p by simp
qed

lemma candidate_channels_Cons:
  "candidate_channels (d # ds) = candidate_channels [d] @ candidate_channels ds"
  by (simp add: candidate_channels_def)

lemma candidate_programmes_Cons:
  "candidate_programmes ws we (d # ds) = candidate_programmes ws we [d] @ candidate_programmes ws we ds"
  by (simp add: candidate_programmes_def)

lemma main_loop_char:
  assumes "main_loop ws we net urls st = Inr st'"
  shows "retained_channels st'
           = retained_channels st
             @ first_seen channel_id (channel_ids_seen st) (candidate_channels (fetched net urls))
       \<and> channel_ids_seen st'
           = channel_ids_seen st \<union> channel_id ` set (candidate_channels (fetched net urls))
       \<and> retained_programmes st'
           = retained_programmes st
             @ first_seen programme_key (programme_keys_seen st)
                 (candidate_programmes ws we (fetched net urls))
       \<and> programme_keys_seen st'
           = programme_keys_seen st
             \<union> programme_key ` set (candidate_programmes ws we (fetched net urls))
       \<and> sources_ok st' = sources_ok st + length (fetched net urls)"
  using assms
proof (induction urls arbitrary: st)
  case Nil
  then show ?case by (simp add: candidate_channels_def candidate_programmes_def)
next
  case (Cons url urls)
  show ?case
  proof (cases "fst (fetch_xml (net url) 3)")
    case (Inl e)
    with Cons.prems have "main_loop ws we net urls (st\<lparr>stderr := stderr st @ [url]\<rparr>) = Inr st'"
      by simp
    from Cons.IH [OF this] Inl show ?thesis
      by (simp add: retained_channels_def retained_programmes_def)
  next
    case (Inr root)
    with Cons.prems obtain st1 where
      m: "merge_doc ws we root (st\<lparr>sources_ok := sources_ok st + 1\<rparr>) = Inr st1"
      and r: "main_loop ws we net urls st1 = Inr st'"
      by (auto split: sum.splits)
    note d = merge_doc_char [OF m]
    note i = Cons.IH [OF r]
    have f: "fetched net (url # urls) = root # fetched net urls" using Inr by simp
    have rc: "retained_channels (st\<lparr>sources_ok := sources_ok st + 1\<rparr>) = retained_channels st"
      and rp: "retained_programmes (st\<lparr>sources_ok := sources_ok st + 1\<rparr>) = retained_programmes st"
      by (simp_all add: retained_channels_def retained_programmes_def)
    have cc: "candidate_channels (fetched net (url # urls))
              = candidate_channels [root] @ candidate_channels (fetched net urls)"
      unfolding f by (rule candidate_channels_Cons)
    have cp: "candidate_programmes ws we (fetched net (url # urls))
              = candidate_programmes ws we [root] @ candidate_programmes ws we (fetched net urls)"
      unfolding f by (rule candidate_programmes_Cons)
    have len: "length (fetched net (url # urls)) = Suc (length (fetched net urls))"
      unfolding f by simp
    show ?thesis
      unfolding cc cp len first_seen_append
      using d i rc rp by (simp add: Un_assoc image_Un)
  qed
qed

lemma ex_run: "main_loop ex_win_start ex_win_end ex_net ex_urls init_state = Inr ex_state"
  by code_simp

lemma ex_fetched: "fetched ex_net ex_urls = [ex_doc_a, ex_doc_b]"
  by code_simp

lemma ex_candidate_programmes:
  "candidate_programmes ex_win_start ex_win_end [ex_doc_a, ex_doc_b]
   = [ex_news, ex_news_again, ex_news_respelled]"
  by code_simp

lemma ex_candidate_channels: "candidate_channels [ex_doc_a, ex_doc_b] = [ex_channel_a, ex_channel_b]"
  by code_simp

lemma ex_retained: "retained_programmes ex_state = [ex_news, ex_news_respelled]"
  "retained_channels ex_state = [ex_channel_a]"
  by code_simp+

text \<open>
  C1. When the loop over the sources ends normally, the programme elements of the unified
  document are selected from the programme records of the fetched documents that pass the
  window test, taken in source-list and document order: no two retained programmes have the
  same key (channel attribute, raw start string, raw stop string, trimmed title text, all
  compared as strings), the retained ones keep their order, for every key the retained
  record is the first candidate with that key, and the keys marked as seen are exactly the
  keys of the records that pass the window test.
\<close>

theorem programme_dedup:
  assumes "main_loop win_start win_end net urls init_state = Inr st"
  shows "distinct (map programme_key (retained_programmes st))
       \<and> subseq (retained_programmes st) (candidate_programmes win_start win_end (fetched net urls))
       \<and> (\<forall>pr \<in> set (candidate_programmes win_start win_end (fetched net urls)).
            find (\<lambda>q. programme_key q = programme_key pr) (retained_programmes st)
            = find (\<lambda>q. programme_key q = programme_key pr)
                (candidate_programmes win_start win_end (fetched net urls)))
       \<and> programme_keys_seen st
           = programme_key ` set (candidate_programmes win_start win_end (fetched net urls))"
proof -
  let ?cand = "candidate_programmes win_start win_end (fetched net urls)"
  from main_loop_char [OF assms]
  have r: "retained_programmes st = first_seen programme_key {} ?cand"
    and k: "programme_keys_seen st = programme_key ` set ?cand"
    by (simp_all add: init_state_def retained_programmes_def)
  have a: "distinct (map programme_key (retained_programmes st))"
    unfolding r by (rule distinct_first_seen)
  have b: "subseq (retained_programmes st) ?cand"
    unfolding r by (rule subseq_first_seen)
  have c: "\<forall>pr \<in> set ?cand.
            find (\<lambda>q. programme_key q = programme_key pr) (retained_programmes st)
            = find (\<lambda>q. programme_key q = programme_key pr) ?cand"
    unfolding r by (simp add: find_first_seen)
  from a b c k show ?thesis by blast
qed

theorem programme_dedup_witness:
  "main_loop ex_win_start ex_win_end ex_net ex_urls init_state = Inr ex_state
   \<and> candidate_programmes ex_win_start ex_win_end (fetched ex_net ex_urls)
       = [ex_news, ex_news_again, ex_news_respelled]
   \<and> retained_programmes ex_state = [ex_news, ex_news_respelled]
   \<and> distinct (map programme_key [ex_news, ex_news_respelled])
   \<and> subseq [ex_news, ex_news_respelled] [ex_news, ex_news_again, ex_news_respelled]
   \<and> find (\<lambda>q. programme_key q = programme_key ex_news_again) [ex_news, ex_news_respelled]
       = find (\<lambda>q. programme_key q = programme_key ex_news_again)
           [ex_news, ex_news_again, ex_news_respelled]
   \<and> programme_keys_seen ex_state
       = programme_key ` set [ex_news, ex_news_again, ex_news_respelled]"
proof -
  have c: "candidate_programmes ex_win_start ex_win_end (fetched ex_net ex_urls)
       = [ex_news, ex_news_again, ex_news_respelled]"
    unfolding ex_fetched by (rule ex_candidate_programmes)
  from programme_dedup [OF ex_run] show ?thesis
    unfolding c ex_retained using ex_run by simp
qed

text \<open>
  C5. A channel record is appended to the unified document iff its id is non-empty and not
  yet seen. When the loop over the sources ends normally, the retained channels are
  selected from the channel records with a non-empty id of the fetched documents, taken in
  source-list and document order: no two retained channels share an id, they keep their
  order, and for every id the retained record is the first record with that id, the element
  itself and so with its metadata as the source gave it.
\<close>

theorem channel_dedup:
  assumes "main_loop win_start win_end net urls init_state = Inr st"
  shows "distinct (map channel_id (retained_channels st))
       \<and> subseq (retained_channels st) (candidate_channels (fetched net urls))
       \<and> (\<forall>ch \<in> set (candidate_channels (fetched net urls)).
            find (\<lambda>c. channel_id c = channel_id ch) (retained_channels st)
            = find (\<lambda>c. channel_id c = channel_id ch) (candidate_channels (fetched net urls)))
       \<and> channel_ids_seen st = channel_id ` set (candidate_channels (fetched net urls))
       \<and> tv_root (add_channel ch s)
           = (if channel_id ch \<noteq> [] \<and> channel_id ch \<notin> channel_ids_seen s
              then tv_root s @ [ch] else tv_root s)"
proof -
  let ?cand = "candidate_channels (fetched net urls)"
  from main_loop_char [OF assms]
  have r: "retained_channels st = first_seen channel_id {} ?cand"
    and k: "channel_ids_seen st = channel_id ` set ?cand"
    by (simp_all add: init_state_def retained_channels_def)
  have a: "distinct (map channel_id (retained_channels st))"
    unfolding r by (rule distinct_first_seen)
  have b: "subseq (retained_channels st) ?cand"
    unfolding r by (rule subseq_first_seen)
  have c: "\<forall>ch \<in> set ?cand.
            find (\<lambda>c. channel_id c = channel_id ch) (retained_channels st)
            = find (\<lambda>c. channel_id c = channel_id ch) ?cand"
    unfolding r by (simp add: find_first_seen)
  have d: "tv_root (add_channel ch s)
           = (if channel_id ch \<noteq> [] \<and> channel_id ch \<notin> channel_ids_seen s
              then tv_root s @ [ch] else tv_root s)"
    by (simp add: add_channel_def channel_id_def Let_def)
  from a b c k d show ?thesis by blast
qed

theorem channel_dedup_witness:
  "main_loop ex_win_start ex_win_end ex_net ex_urls init_state = Inr ex_state
   \<and> candidate_channels (fetched ex_net ex_urls) = [ex_channel_a, ex_channel_b]
   \<and> channel_id ex_channel_a = channel_id ex_channel_b
   \<and> retained_channels ex_state = [ex_channel_a]
   \<and> find (\<lambda>c. channel_id c = channel_id ex_channel_b) [ex_channel_a]
       = find (\<lambda>c. channel_id c = channel_id ex_channel_b) [ex_channel_a, ex_channel_b]
   \<and> channel_ids_seen ex_state = channel_id ` set [ex_channel_a, ex_channel_b]"
proof -
  have c: "candidate_channels (fetched ex_net ex_urls) = [ex_channel_a, ex_channel_b]"
    unfolding ex_fetched by (rule ex_candidate_channels)
  have e: "channel_id ex_channel_a = channel_id ex_channel_b" by code_simp
  from channel_dedup [OF ex_run] show ?thesis
    unfolding c ex_retained using ex_run e by simp
qed





lemma programme_side_add_channels:
  "same_programme_side (add_channels (findall ''channel'' root) st) st"
proof -
  let ?chs = "findall ''channel'' root"
  note c = add_channels_char [of ?chs st]
  have "filter (\<lambda>e. tag e = ''programme'')
          (first_seen channel_id (channel_ids_seen st) (filter (\<lambda>ch. channel_id ch \<noteq> []) ?chs)) = []"
    by (rule filter_first_seen_none) (auto dest: tag_findall)
  then show ?thesis
    using c by (simp add: same_programme_side_def retained_programmes_def)
qed

lemma programme_side_add_programme:
  assumes "same_programme_side s t"
  shows "rel_sum (=) same_programme_side (add_programme ws we pr s) (add_programme ws we pr t)"
  using assms
  by (auto simp add: add_programme_def same_programme_side_def retained_programmes_def Let_def
      split: sum.splits)

lemma programme_side_add_programmes:
  assumes "same_programme_side s t"
  shows "rel_sum (=) same_programme_side (add_programmes ws we prs s) (add_programmes ws we prs t)"
  using assms
proof (induction prs arbitrary: s t)
  case Nil
  then show ?case by simp
next
  case (Cons pr prs)
  note h = programme_side_add_programme [OF Cons.prems, of ws we pr]
  show ?case
  proof (cases "add_programme ws we pr s")
    case (Inl e)
    with h have "add_programme ws we pr t = Inl e"
      by (cases "add_programme ws we pr t") simp_all
    with Inl show ?thesis by simp
  next
    case (Inr s1)
    with h obtain t1 where t1: "add_programme ws we pr t = Inr t1" "same_programme_side s1 t1"
      by (cases "add_programme ws we pr t") simp_all
    from Cons.IH [OF t1(2)] Inr t1(1) show ?thesis by simp
  qed
qed

lemma programme_side_merge_doc:
  assumes "same_programme_side s t" and "findall ''programme'' r = findall ''programme'' r'"
  shows "rel_sum (=) same_programme_side (merge_doc ws we r s) (merge_doc ws we r' t)"
proof -
  have "same_programme_side (add_channels (findall ''channel'' r) s)
          (add_channels (findall ''channel'' r') t)"
    using programme_side_add_channels [of r s] programme_side_add_channels [of r' t] assms(1)
    by (simp add: same_programme_side_def)
  from programme_side_add_programmes [OF this] show ?thesis
    by (simp add: merge_doc_def assms(2))
qed

lemma programme_side_main_loop:
  assumes "same_programme_side s t"
    and "\<forall>url \<in> set urls. same_programmes (fst (fetch_xml (net url) 3)) (fst (fetch_xml (net' url) 3))"
  shows "rel_sum (=) same_programme_side (main_loop ws we net urls s) (main_loop ws we net' urls t)"
  using assms
proof (induction urls arbitrary: s t)
  case Nil
  then show ?case by simp
next
  case (Cons url urls)
  from Cons.prems(2)
  have u: "same_programmes (fst (fetch_xml (net url) 3)) (fst (fetch_xml (net' url) 3))"
    and rest: "\<forall>url \<in> set urls. same_programmes (fst (fetch_xml (net url) 3)) (fst (fetch_xml (net' url) 3))"
    by simp_all
  show ?case
  proof (cases "fst (fetch_xml (net url) 3)")
    case (Inl e)
    with u obtain f where f: "fst (fetch_xml (net' url) 3) = Inl f"
      by (auto simp add: same_programmes_def split: sum.splits)
    have "same_programme_side (s\<lparr>stderr := stderr s @ [url]\<rparr>) (t\<lparr>stderr := stderr t @ [url]\<rparr>)"
      using Cons.prems(1) by (simp add: same_programme_side_def retained_programmes_def)
    from Cons.IH [OF this rest] show ?thesis using Inl f by simp
  next
    case (Inr r)
    with u obtain r' where r': "fst (fetch_xml (net' url) 3) = Inr r'"
      and same: "findall ''programme'' r = findall ''programme'' r'"
      by (auto simp add: same_programmes_def split: sum.splits)
    have "same_programme_side (s\<lparr>sources_ok := sources_ok s + 1\<rparr>) (t\<lparr>sources_ok := sources_ok t + 1\<rparr>)"
      using Cons.prems(1) by (simp add: same_programme_side_def retained_programmes_def)
    note h = programme_side_merge_doc [OF this same, of ws we]
    let ?ms = "merge_doc ws we r (s\<lparr>sources_ok := sources_ok s + 1\<rparr>)"
    let ?mt = "merge_doc ws we r' (t\<lparr>sources_ok := sources_ok t + 1\<rparr>)"
    show ?thesis
    proof (cases ?ms)
      case (Inl e)
      with h have "?mt = Inl e" by (cases ?mt) simp_all
      with Inl show ?thesis using \<open>fst (fetch_xml (net url) 3) = Inr r\<close> r' by simp
    next
      case ok: (Inr s1)
      with h obtain t1 where t1: "?mt = Inr t1" "same_programme_side s1 t1"
        by (cases ?mt) simp_all
      from Cons.IH [OF t1(2) rest] ok t1(1) show ?thesis
        using \<open>fst (fetch_xml (net url) 3) = Inr r\<close> r' by simp
    qed
  qed
qed

text \<open>
  C9. Which programmes are retained does not depend on the channels. Two runs whose sources
  fail or succeed alike and carry the same programme elements, whatever their channel
  elements, end alike on the programme side: the same exception, or the same retained
  programmes and the same keys seen. The step for one programme is the same whatever the
  set of channel ids seen, and a programme without a channel attribute has the empty
  string as first component of its key.
\<close>

theorem programmes_independent_of_channels:
  assumes "\<forall>url \<in> set urls.
             same_programmes (fst (fetch_xml (net url) 3)) (fst (fetch_xml (net' url) 3))"
  shows "map_sum id retained_programmes (main_loop win_start win_end net urls init_state)
           = map_sum id retained_programmes (main_loop win_start win_end net' urls init_state)
       \<and> map_sum id programme_keys_seen (main_loop win_start win_end net urls init_state)
           = map_sum id programme_keys_seen (main_loop win_start win_end net' urls init_state)
       \<and> add_programme win_start win_end pr (st\<lparr>channel_ids_seen := ids\<rparr>)
           = map_sum id (\<lambda>s. s\<lparr>channel_ids_seen := ids\<rparr>) (add_programme win_start win_end pr st)
       \<and> (map_of (attrib pr) ''channel'' = None \<longrightarrow> fst (programme_key pr) = [])"
proof -
  have "same_programme_side init_state init_state" by (simp add: same_programme_side_def)
  from programme_side_main_loop [OF this assms, of win_start win_end]
  have a: "map_sum id retained_programmes (main_loop win_start win_end net urls init_state)
           = map_sum id retained_programmes (main_loop win_start win_end net' urls init_state)
       \<and> map_sum id programme_keys_seen (main_loop win_start win_end net urls init_state)
           = map_sum id programme_keys_seen (main_loop win_start win_end net' urls init_state)"
    by (cases "main_loop win_start win_end net urls init_state";
        cases "main_loop win_start win_end net' urls init_state")
       (simp_all add: same_programme_side_def)
  have b: "add_programme win_start win_end pr (st\<lparr>channel_ids_seen := ids\<rparr>)
           = map_sum id (\<lambda>s. s\<lparr>channel_ids_seen := ids\<rparr>) (add_programme win_start win_end pr st)"
    by (simp add: add_programme_def Let_def split: sum.splits)
  have c: "map_of (attrib pr) ''channel'' = None \<longrightarrow> fst (programme_key pr) = []"
    by (simp add: programme_key_def get_or_empty_def)
  from a b c show ?thesis by blast
qed

theorem programmes_independent_of_channels_witness:
  "list_all
     (\<lambda>url. same_programmes (fst (fetch_xml (ex_net_c url) 3))
        (fst (fetch_xml (ex_net_c_bare url) 3)))
     [''a'', ''z'']
   \<and> map_sum id retained_programmes
         (main_loop ex_win_start ex_win_end ex_net_c [''a'', ''z''] init_state)
       = Inr [ex_orphan, ex_news]
   \<and> map_sum id retained_programmes
         (main_loop ex_win_start ex_win_end ex_net_c_bare [''a'', ''z''] init_state)
       = Inr [ex_orphan, ex_news]
   \<and> map_of (attrib ex_orphan) ''channel'' = None
   \<and> fst (programme_key ex_orphan) = []"
proof -
  have h: "\<forall>url \<in> set [''a'', ''z''].
      same_programmes (fst (fetch_xml (ex_net_c url) 3)) (fst (fetch_xml (ex_net_c_bare url) 3))"
    by code_simp
  have v: "map_sum id retained_programmes
         (main_loop ex_win_start ex_win_end ex_net_c [''a'', ''z''] init_state)
       = Inr [ex_orphan, ex_news]"
    by code_simp
  have n: "map_of (attrib ex_orphan) ''channel'' = None"
    by code_simp
  from programmes_independent_of_channels [OF h, of ex_win_start ex_win_end ex_orphan]
  show ?thesis using h v n by (simp add: list_all_iff)
qed


section \<open>The fetcher: properties\<close>

lemma fetch_xml_3:
  "fetch_xml attempt 3 =
     (case attempt 1 of
        Inr d \<Rightarrow> (Inr d, [Get 1])
      | Inl e1 \<Rightarrow>
          (case attempt 2 of
             Inr d \<Rightarrow> (Inr d, [Get 1, Sleep 2, Get 2])
           | Inl e2 \<Rightarrow>
               (case attempt 3 of
                  Inr d \<Rightarrow> (Inr d, [Get 1, Sleep 2, Get 2, Sleep 4, Get 3])
                | Inl e3 \<Rightarrow>
                    (Inl (Propagated e3), [Get 1, Sleep 2, Get 2, Sleep 4, Get 3, Sleep 6]))))"
proof -
  have u: "[1..<3 + 1] = [1, 2, 3::nat]" by (simp add: upt_rec)
  show ?thesis unfolding fetch_xml_def u by (simp split: sum.splits)
qed

lemma main_loop_skip:
  "fst (fetch_xml (net url) 3) = Inl err \<Longrightarrow>
   main_loop ws we net (url # urls) st = main_loop ws we net urls (st\<lparr>stderr := stderr st @ [url]\<rparr>)"
  by simp

text \<open>
  C7, as the code has it. For every source the fetcher makes at most 3 attempts. After
  every failed attempt \<open>k\<close>, the last one included, it sleeps \<open>2 * k\<close> seconds: a source that
  fails three times costs sleeps of 2, 4 and 6 seconds, the last of them after the final
  attempt. It then raises the exception of the last attempt again. The caller catches it,
  prints the failure and goes on with the next source.
\<close>

theorem fetch_xml_retry:
  "fetch_xml attempt 3 =
     (case attempt 1 of
        Inr d \<Rightarrow> (Inr d, [Get 1])
      | Inl e1 \<Rightarrow>
          (case attempt 2 of
             Inr d \<Rightarrow> (Inr d, [Get 1, Sleep 2, Get 2])
           | Inl e2 \<Rightarrow>
               (case attempt 3 of
                  Inr d \<Rightarrow> (Inr d, [Get 1, Sleep 2, Get 2, Sleep 4, Get 3])
                | Inl e3 \<Rightarrow>
                    (Inl (Propagated e3), [Get 1, Sleep 2, Get 2, Sleep 4, Get 3, Sleep 6]))))
   \<and> (fst (fetch_xml (net url) 3) = Inl err \<longrightarrow>
        main_loop win_start win_end net (url # urls) st
        = main_loop win_start win_end net urls (st\<lparr>stderr := stderr st @ [url]\<rparr>))"
  using fetch_xml_3 [of attempt] main_loop_skip [of net url err win_start win_end urls st]
  by blast

theorem fetch_xml_retry_witness:
  "fetch_xml (ex_net ''b'') 3 = (Inr ex_doc_b, [Get 1, Sleep 2, Get 2, Sleep 4, Get 3])
   \<and> fst (fetch_xml (ex_net ''c'') 3) = Inl (Propagated ())
   \<and> main_loop ex_win_start ex_win_end ex_net (''c'' # [''b'']) init_state
       = main_loop ex_win_start ex_win_end ex_net [''b''] (init_state\<lparr>stderr := stderr init_state @ [''c'']\<rparr>)"
proof -
  have a: "ex_net ''b'' 1 = Inl ()" "ex_net ''b'' 2 = Inl ()" "ex_net ''b'' 3 = Inr ex_doc_b"
    by (simp_all add: ex_net_def)
  have c: "fst (fetch_xml (ex_net ''c'') 3) = Inl (Propagated ())"
    by code_simp
  from fetch_xml_retry [of "ex_net ''b''" ex_net "''c''" "Propagated ()" ex_win_start ex_win_end
      "[''b'']" init_state]
  show ?thesis using a c by simp
qed

text \<open>
  The claim that the fetcher sleeps only between attempts fails on a source that is down:
  the trace ends with a sleep of 6 seconds that no attempt follows.
\<close>

theorem fetch_xml_sleeps_counterexample:
  "snd (fetch_xml (ex_net_down ''a'') 3) = [Get 1, Sleep 2, Get 2, Sleep 4, Get 3, Sleep 6]
   \<and> \<not> sleeps_only_between (snd (fetch_xml (ex_net_down ''a'') 3))"
  by code_simp


section \<open>The run as a whole: properties\<close>






lemma OUTPUT_not_PREVIOUS: "OUTPUT_NAME \<noteq> PREVIOUS_DIST"
  by (simp add: OUTPUT_NAME_def PREVIOUS_DIST_def)


lemma ex_down_phase: "merge_phase ex_now ex_net_down = Inr ex_state_down"
  by code_simp

lemma ex_one_phase: "merge_phase ex_now ex_net_one = Inr ex_state_one"
  by code_simp



lemma ex_one_root: "tv_root ex_state_one = [ex_channel_a, ex_news]"
  by (simp add: ex_state_one_def)

lemma ex_fs_prev_previous: "ex_fs_prev PREVIOUS_DIST = Some ''previous''"
  by (simp add: ex_fs_prev_def)


lemma main_loop_cong:
  assumes "\<forall>url \<in> set urls. fst (fetch_xml (net1 url) 3) = fst (fetch_xml (net2 url) 3)"
  shows "main_loop ws we net1 urls st = main_loop ws we net2 urls st"
  using assms by (induction urls arbitrary: st) (simp_all split: sum.splits)

lemma merge_phase_cong:
  assumes "\<forall>url \<in> set URLS. fst (fetch_xml (net1 url) 3) = fst (fetch_xml (net2 url) 3)"
  shows "merge_phase now net1 = merge_phase now net2"
  using main_loop_cong [OF assms] by (simp add: merge_phase_def split: sum.splits)

text \<open>
  C10, as the code has it. Two runs at the same instant whose sources give the same fetch
  outcomes go through the same merge phase: the same exception, or the same final state and
  so the same unified document, element by element and in the same order. If, in addition,
  the previous-good artifact exists in both runs or in neither, they end the same way and
  print the same messages, and when the merge is written both write the same bytes.
\<close>

theorem run_determined:
  assumes "\<forall>url \<in> set URLS. fst (fetch_xml (net1 url) 3) = fst (fetch_xml (net2 url) 3)"
    and "(fs1 PREVIOUS_DIST = None) = (fs2 PREVIOUS_DIST = None)"
  shows "merge_phase now net1 = merge_phase now net2
       \<and> ended (main encode now net1 fs1) = ended (main encode now net2 fs2)
       \<and> stdout (main encode now net1 fs1) = stdout (main encode now net2 fs2)
       \<and> (merge_phase now net1 = Inr st \<and> \<not> total_failure st
          \<longrightarrow> output_history (main encode now net1 fs1) = [Some [], Some (encode (tv_root st))]
              \<and> output_history (main encode now net2 fs2) = [Some [], Some (encode (tv_root st))])"
proof -
  note m = merge_phase_cong [OF assms(1), of now]
  have a: "ended (main encode now net1 fs1) = ended (main encode now net2 fs2)
       \<and> stdout (main encode now net1 fs1) = stdout (main encode now net2 fs2)"
    using assms(2) unfolding main_def m
    by (cases "fs1 PREVIOUS_DIST"; cases "fs2 PREVIOUS_DIST")
       (simp_all add: fallback_to_previous_def split: sum.splits)
  have b: "merge_phase now net1 = Inr st \<and> \<not> total_failure st
          \<longrightarrow> output_history (main encode now net1 fs1) = [Some [], Some (encode (tv_root st))]
              \<and> output_history (main encode now net2 fs2) = [Some [], Some (encode (tv_root st))]"
    using m by (auto simp add: main_def output_history_def write_file_def)
  from m a b show ?thesis by blast
qed

theorem run_determined_witness:
  "list_all
     (\<lambda>url. fst (fetch_xml (ex_net_one url) 3) = fst (fetch_xml (ex_net_one_late url) 3)) URLS
   \<and> (ex_fs_prev PREVIOUS_DIST = None) = ((ex_fs_prev(OUTPUT_NAME \<mapsto> ''stale'')) PREVIOUS_DIST = None)
   \<and> merge_phase ex_now ex_net_one_late = Inr ex_state_one
   \<and> ended (main ex_encode ex_now ex_net_one ex_fs_prev)
       = ended (main ex_encode ex_now ex_net_one_late (ex_fs_prev(OUTPUT_NAME \<mapsto> ''stale'')))
   \<and> output_history (main ex_encode ex_now ex_net_one ex_fs_prev)
       = [Some [], Some (ex_encode [ex_channel_a, ex_news])]
   \<and> output_history (main ex_encode ex_now ex_net_one_late (ex_fs_prev(OUTPUT_NAME \<mapsto> ''stale'')))
       = [Some [], Some (ex_encode [ex_channel_a, ex_news])]"
proof -
  have h1: "\<forall>url \<in> set URLS.
      fst (fetch_xml (ex_net_one url) 3) = fst (fetch_xml (ex_net_one_late url) 3)"
    by code_simp
  have h2: "(ex_fs_prev PREVIOUS_DIST = None)
            = ((ex_fs_prev(OUTPUT_NAME \<mapsto> ''stale'')) PREVIOUS_DIST = None)"
    using OUTPUT_not_PREVIOUS by (simp add: ex_fs_prev_def)
  have t: "\<not> total_failure ex_state_one" by code_simp
  note r = run_determined [where ?net1.0 = ex_net_one and ?net2.0 = ex_net_one_late
      and ?fs1.0 = ex_fs_prev and ?fs2.0 = "ex_fs_prev(OUTPUT_NAME \<mapsto> ''stale'')"
      and now = ex_now and st = ex_state_one and encode = ex_encode, OF h1 h2]
  from r show ?thesis using h1 h2 t ex_one_phase ex_one_root by (simp add: list_all_iff)
qed

text \<open>
  The exit outcome is not determined by the instant and the fetch outcomes alone: with every
  source down, the run ends with status 0 when the previous-good artifact exists and with
  status 1 when it does not.
\<close>

theorem run_exit_counterexample:
  "ended (main ex_encode ex_now ex_net_down ex_fs_prev) = Exit 0
   \<and> ended (main ex_encode ex_now ex_net_down Map.empty) = Exit 1"
proof -
  have t: "total_failure ex_state_down" by code_simp
  show ?thesis
    by (simp add: main_def ex_down_phase t fallback_to_previous_def ex_fs_prev_def)
qed

text \<open>
  C8, as the code has it. The output path is written in two steps: opening it for writing
  creates or truncates it, then the bytes arrive. After the second step it holds the
  complete encoded document, or on the fallback path the complete copy of the previous
  artifact. No file is touched before the merge phase and the fallback decision are over: a
  run that dies of an exception, or that fails with no previous artifact, writes nothing.
  No path other than the output path is ever changed.
\<close>

theorem writer_steps:
  "(merge_phase now net = Inr st \<and> \<not> total_failure st
      \<longrightarrow> fs_trace (main encode now net fs)
          = [fs(OUTPUT_NAME \<mapsto> []), fs(OUTPUT_NAME \<mapsto> encode (tv_root st))])
   \<and> (merge_phase now net = Inr st \<and> total_failure st \<and> fs PREVIOUS_DIST = Some b
      \<longrightarrow> fs_trace (main encode now net fs) = [fs(OUTPUT_NAME \<mapsto> []), fs(OUTPUT_NAME \<mapsto> b)])
   \<and> (merge_phase now net = Inr st \<and> total_failure st \<and> fs PREVIOUS_DIST = None
      \<longrightarrow> fs_trace (main encode now net fs) = [])
   \<and> (merge_phase now net = Inl e
      \<longrightarrow> fs_trace (main encode now net fs) = [] \<and> ended (main encode now net fs) = Uncaught e)
   \<and> (\<forall>f \<in> set (fs_trace (main encode now net fs)). \<forall>p. p \<noteq> OUTPUT_NAME \<longrightarrow> f p = fs p)"
  by (auto simp add: main_def fallback_to_previous_def write_file_def split: sum.splits option.splits)

theorem writer_steps_witness:
  "merge_phase ex_now ex_net_one = Inr ex_state_one \<and> \<not> total_failure ex_state_one
   \<and> fs_trace (main ex_encode ex_now ex_net_one ex_fs_prev)
       = [ex_fs_prev(OUTPUT_NAME \<mapsto> []),
          ex_fs_prev(OUTPUT_NAME \<mapsto> ex_encode [ex_channel_a, ex_news])]
   \<and> list_all (\<lambda>f. f PREVIOUS_DIST = Some ''previous'')
         (fs_trace (main ex_encode ex_now ex_net_one ex_fs_prev))"
proof -
  have t: "\<not> total_failure ex_state_one" by code_simp
  from writer_steps [of ex_now ex_net_one ex_state_one ex_encode ex_fs_prev]
  show ?thesis using t ex_one_phase ex_one_root ex_fs_prev_previous OUTPUT_not_PREVIOUS
    by (auto simp add: list_all_iff)
qed

text \<open>
  The write is not atomic: in a run that merges one source, the output path first holds an
  empty file and only then the encoded document.
\<close>

theorem writer_not_atomic_counterexample:
  "output_history (main ex_encode ex_now ex_net_one ex_fs_prev)
     = [Some [], Some (ex_encode [ex_channel_a, ex_news])]
   \<and> ex_encode [ex_channel_a, ex_news] \<noteq> []"
proof -
  have t: "\<not> total_failure ex_state_one" by code_simp
  show ?thesis
    by (simp add: main_def ex_one_phase t output_history_def write_file_def ex_one_root
        ex_encode_def)
qed

end
